theory Spec2Isabelle
  imports Complex_Main
begin

section \<open>The FAST driver: \<^verbatim>\<open>mpf/platforms/fast/fast_driver.py\<close>\<close>

subsection \<open>Data\<close>

text \<open>
  Power settings are Python floats. Every finite float is a rational number, and the only
  arithmetic the driver does on a power is a multiplication by 8 or by 32, a truncation and
  one subtraction of the truncated value: all of them are exact on floats in the unit
  interval, so powers are modelled as rationals. Durations are Python ints.
\<close>

record PulseSettings =
  pulse_power :: rat
  pulse_duration :: int

record HoldSettings =
  hold_power :: rat
  hold_duration :: int

text \<open>
  \<^verbatim>\<open>mpf.core.utility_functions.Util\<close> is not among the sources. The conversion helpers the
  driver calls are parameters of the model. \<open>int_to_hex_string\<close> takes the optional second
  argument of the source (\<^verbatim>\<open>Util.int_to_hex_string(hold_settings.duration, True)\<close>),
  \<open>False\<close> when the call gives none. The parameters are total: what the helpers do on a
  value they reject is not part of the model.
\<close>

record Util =
  int_to_hex_string :: "int \<Rightarrow> bool \<Rightarrow> string"
  pwm8_to_hex_string :: "int \<Rightarrow> string"
  pwm32_to_hex_string :: "int \<Rightarrow> string"
  hex_string_to_int :: "string \<Rightarrow> int"

text \<open>
  What the driver hands to its connection: \<^verbatim>\<open>connection.send_and_forget(cmd)\<close> and
  \<^verbatim>\<open>connection.send_with_confirmation(cmd, confirm)\<close>, recorded in call order.
\<close>

datatype sent_cmd =
  SendAndForget string
| SendWithConfirmation string string

text \<open>
  The driver object. \<open>number\<close>, \<open>driver_cmd\<close>, \<open>trigger_cmd\<close> (the last two are attributes of
  the connection), the two platform settings read with \<^verbatim>\<open>.get\<close> and \<open>default_recycle\<close> (of
  the driver's config) never change; \<open>autofire\<close>, \<open>autofire_cleared\<close> and \<open>config_state\<close> are the
  mutable attributes of the source, \<open>None\<close> as in the source. The cached tuples hold
  (an int, a float, a float) in every assignment of the source but one, which stores the
  duration twice: the middle component is therefore a rational, and a duration stored there
  is embedded with \<open>of_int\<close> (Python compares an int with a float by value).
\<close>

type_synonym config_tuple = "int \<times> rat \<times> rat"

record FASTDriver =
  number :: string
  driver_cmd :: string
  trigger_cmd :: string
  hold_pwm_patter :: "string option"
  recycle_ms :: "int option"
  default_recycle :: bool
  autofire :: "(string \<times> config_tuple) option"
  autofire_cleared :: bool
  config_state :: "config_tuple option"
  sent :: "sent_cmd list"

text \<open>A driver as \<^verbatim>\<open>__init__\<close> leaves it.\<close>

definition init_driver :: "string \<Rightarrow> string \<Rightarrow> string \<Rightarrow> string option \<Rightarrow> int option \<Rightarrow> bool \<Rightarrow> FASTDriver" where
  "init_driver num dcmd tcmd patter recycle dflt_recycle =
     \<lparr>number = num, driver_cmd = dcmd, trigger_cmd = tcmd, hold_pwm_patter = patter,
      recycle_ms = recycle, default_recycle = dflt_recycle,
      autofire = None, autofire_cleared = False, config_state = None, sent = []\<rparr>"

subsection \<open>Encoding helpers\<close>

text \<open>Python's \<^verbatim>\<open>int(x)\<close> on a float truncates towards zero.\<close>

definition py_int :: "rat \<Rightarrow> int" where
  "py_int x = (if 0 \<le> x then \<lfloor>x\<rfloor> else \<lceil>x\<rceil>)"

text \<open>\<^verbatim>\<open>str.upper()\<close> on the ASCII range, which is where hex strings live.\<close>

definition upper_char :: "char \<Rightarrow> char" where
  "upper_char c =
     (if 97 \<le> (of_char c :: nat) \<and> (of_char c :: nat) \<le> 122
      then char_of ((of_char c :: nat) - 32) else c)"

definition upper :: "string \<Rightarrow> string" where
  "upper s = map upper_char s"

text \<open>
  The float constant \<^verbatim>\<open>0.025\<close> of the source lies just above 25/1000, with no float between
  the two, so on floats the comparison below is the comparison of the source.
\<close>

definition get_pwm_for_cmd :: "Util \<Rightarrow> rat \<Rightarrow> string" where
  "get_pwm_for_cmd U pwr =
     (if (pwr * 8) - of_int (py_int (pwr * 8)) < 25 / 1000
      then upper (pwm8_to_hex_string U (py_int (pwr * 8)))
      else upper (pwm32_to_hex_string U (py_int (pwr * 32))))"

definition get_hold_pwm_for_cmd :: "Util \<Rightarrow> FASTDriver \<Rightarrow> rat \<Rightarrow> string" where
  "get_hold_pwm_for_cmd U self pwr =
     (case hold_pwm_patter self of
        Some patter \<Rightarrow> if patter \<noteq> [] then patter else get_pwm_for_cmd U pwr
      | None \<Rightarrow> get_pwm_for_cmd U pwr)"

definition get_recycle_ms_for_cmd :: "Util \<Rightarrow> FASTDriver \<Rightarrow> bool \<Rightarrow> int \<Rightarrow> string" where
  "get_recycle_ms_for_cmd U self recycle pulse_ms =
     (if \<not> recycle then ''00''
      else case recycle_ms self of
        Some r \<Rightarrow> int_to_hex_string U r False
      | None \<Rightarrow>
          if pulse_ms * 2 > 255 then ''FF''
          else int_to_hex_string U (pulse_ms * 2) False)"

subsection \<open>Operations\<close>

definition send_and_forget :: "string \<Rightarrow> FASTDriver \<Rightarrow> FASTDriver" where
  "send_and_forget cmd self = self\<lparr>sent := sent self @ [SendAndForget cmd]\<rparr>"

definition send_with_confirmation :: "string \<Rightarrow> string \<Rightarrow> FASTDriver \<Rightarrow> FASTDriver" where
  "send_with_confirmation cmd confirm self =
     self\<lparr>sent := sent self @ [SendWithConfirmation cmd confirm]\<rparr>"

text \<open>\<^verbatim>\<open>_reenable_autofire_if_configured\<close>\<close>

definition reenable_autofire_if_configured :: "FASTDriver \<Rightarrow> FASTDriver" where
  "reenable_autofire_if_configured self =
     (case autofire self of
        Some (cmd, tuple) \<Rightarrow>
          if autofire_cleared self
          then send_with_confirmation cmd (driver_cmd self)
                 (self\<lparr>autofire_cleared := False, config_state := Some tuple\<rparr>)
          else self
      | None \<Rightarrow> self)"

definition disable :: "FASTDriver \<Rightarrow> FASTDriver" where
  "disable self =
     (let self1 = send_and_forget (trigger_cmd self @ '':'' @ number self @ '',02'') self;
          self2 = reenable_autofire_if_configured self1
      in if autofire self2 \<noteq> None
         then send_and_forget (trigger_cmd self2 @ '':'' @ number self2 @ '',00'') self2
         else self2)"

definition set_autofire :: "string \<Rightarrow> int \<Rightarrow> rat \<Rightarrow> rat \<Rightarrow> FASTDriver \<Rightarrow> FASTDriver" where
  "set_autofire autofire_cmd pulse_dur pulse_pow hold_pow self =
     send_with_confirmation autofire_cmd (driver_cmd self)
       (self\<lparr>autofire := Some (autofire_cmd, (pulse_dur, pulse_pow, hold_pow)),
             config_state := Some (pulse_dur, pulse_pow, hold_pow),
             autofire_cleared := False\<rparr>)"

definition clear_autofire :: "string \<Rightarrow> string \<Rightarrow> FASTDriver \<Rightarrow> FASTDriver" where
  "clear_autofire config_cmd num self =
     (send_with_confirmation (config_cmd @ num @ '',81'') (driver_cmd self) self)
       \<lparr>autofire := None, config_state := None\<rparr>"

definition enable :: "Util \<Rightarrow> PulseSettings \<Rightarrow> HoldSettings \<Rightarrow> FASTDriver \<Rightarrow> FASTDriver" where
  "enable U pulse_settings hold_settings self =
     (let requested = (pulse_duration pulse_settings, pulse_power pulse_settings,
                       hold_power hold_settings)
      in if autofire self \<noteq> None \<and> config_state self = Some requested
         then send_and_forget (trigger_cmd self @ '':'' @ number self @ '',03'') self
         else
           (let self1 = self\<lparr>autofire_cleared := True\<rparr>;
                cmd = driver_cmd self1 @ '':'' @ number self1 @ '',C1,00,18,''
                      @ int_to_hex_string U (pulse_duration pulse_settings) False @ '',''
                      @ get_pwm_for_cmd U (pulse_power pulse_settings) @ '',''
                      @ get_hold_pwm_for_cmd U self1 (hold_power hold_settings) @ '',''
                      @ get_recycle_ms_for_cmd U self1 (default_recycle self1)
                          (pulse_duration pulse_settings);
                self2 = self1\<lparr>config_state :=
                          Some (pulse_duration pulse_settings,
                                of_int (pulse_duration pulse_settings),
                                hold_power hold_settings)\<rparr>
            in send_and_forget cmd self2))"

text \<open>
  \<^verbatim>\<open>_pulse\<close>, with the optional hold settings as an option. It returns what
  \<^verbatim>\<open>Util.hex_string_to_int(hex_ms_string)\<close> returns, and the driver.
\<close>

definition priv_pulse :: "Util \<Rightarrow> PulseSettings \<Rightarrow> HoldSettings option \<Rightarrow> FASTDriver \<Rightarrow> int \<times> FASTDriver" where
  "priv_pulse U pulse_settings hold_settings self =
     (let hex_ms_string = int_to_hex_string U (pulse_duration pulse_settings) False;
          (hold_pwm, hold_ms, requested) =
            (case hold_settings of
               Some hs \<Rightarrow>
                 (get_hold_pwm_for_cmd U self (hold_power hs),
                  int_to_hex_string U (hold_duration hs) True,
                  (pulse_duration pulse_settings, pulse_power pulse_settings, hold_power hs))
             | None \<Rightarrow>
                 (''00'', ''00'',
                  (pulse_duration pulse_settings, pulse_power pulse_settings, 0)));
          self1 =
            (if config_state self = None
                \<or> fst (the (config_state self)) \<noteq> fst requested
                \<or> fst (snd (the (config_state self))) \<noteq> fst (snd requested)
             then
               (let self' = self\<lparr>config_state := Some requested, autofire_cleared := True\<rparr>;
                    cmd = driver_cmd self' @ '':'' @ number self' @ '',89,00,10,''
                          @ hex_ms_string @ '',''
                          @ get_pwm_for_cmd U (pulse_power pulse_settings) @ '',''
                          @ hold_ms @ '','' @ hold_pwm @ '',00''
                in send_with_confirmation cmd (driver_cmd self') self')
             else
               send_and_forget (trigger_cmd self @ '':'' @ number self @ '',01'') self)
      in (hex_string_to_int U hex_ms_string, reenable_autofire_if_configured self1))"

definition timed_enable :: "Util \<Rightarrow> PulseSettings \<Rightarrow> HoldSettings \<Rightarrow> FASTDriver \<Rightarrow> FASTDriver" where
  "timed_enable U pulse_settings hold_settings self =
     snd (priv_pulse U pulse_settings (Some hold_settings) self)"

definition pulse :: "Util \<Rightarrow> PulseSettings \<Rightarrow> FASTDriver \<Rightarrow> FASTDriver" where
  "pulse U pulse_settings self = snd (priv_pulse U pulse_settings None self)"

text \<open>
  A sample instance of the helpers and two sample drivers, used to run the operations on
  concrete requests. The sample helpers render a byte as two hex digits; the theorems
  below hold for every instance.
\<close>

definition hex_digit :: "int \<Rightarrow> char" where
  "hex_digit n = (''0123456789ABCDEF'' ! nat (n mod 16))"

definition hex_byte :: "int \<Rightarrow> string" where
  "hex_byte n = [hex_digit (n div 16), hex_digit n]"

definition sample_util :: Util where
  "sample_util =
     \<lparr>int_to_hex_string = (\<lambda>n overflow. hex_byte n),
      pwm8_to_hex_string = (\<lambda>n. [CHR ''p'', hex_digit n]),
      pwm32_to_hex_string = (\<lambda>n. CHR ''q'' # hex_byte n),
      hex_string_to_int = (\<lambda>s. int (length s))\<rparr>"

definition sample_driver :: FASTDriver where
  "sample_driver = init_driver ''07'' ''DL'' ''TL'' None None True"

subsection \<open>The commands and the cache test, as the specification words them\<close>

text \<open>
  The tuple a pulse or timed-enable request asks for: (duration, pulse power, hold power),
  with hold power 0 for a plain pulse.
\<close>

definition requested_tuple :: "PulseSettings \<Rightarrow> HoldSettings option \<Rightarrow> config_tuple" where
  "requested_tuple ps hs =
     (pulse_duration ps, pulse_power ps, (case hs of Some h \<Rightarrow> hold_power h | None \<Rightarrow> 0))"

text \<open>
  The cached Driver Command State is set and its (pulse duration, pulse power) components
  equal the requested ones; the hold power is not compared.
\<close>

definition cache_hit :: "PulseSettings \<Rightarrow> FASTDriver \<Rightarrow> bool" where
  "cache_hit ps self =
     (case config_state self of
        None \<Rightarrow> False
      | Some (d, p, h) \<Rightarrow> d = pulse_duration ps \<and> p = pulse_power ps)"

text \<open>Re-trigger existing configuration: \<^verbatim>\<open><TRIGGER_CMD>:N,01\<close>\<close>

definition retrigger_cmd :: "FASTDriver \<Rightarrow> string" where
  "retrigger_cmd self = trigger_cmd self @ '':'' @ number self @ '',01''"

text \<open>
  Full pulse-and-hold configure and fire:
  \<^verbatim>\<open><DRIVER_CMD>:N,89,00,10,<dur_hex>,<pulse_pwm>,<hold_dur_hex>,<hold_pwm>,00\<close>,
  both hold fields \<^verbatim>\<open>00\<close> for a plain pulse.
\<close>

definition configure_and_fire_cmd :: "Util \<Rightarrow> PulseSettings \<Rightarrow> HoldSettings option \<Rightarrow> FASTDriver \<Rightarrow> string" where
  "configure_and_fire_cmd U ps hs self =
     driver_cmd self @ '':'' @ number self @ '',89,00,10,''
       @ int_to_hex_string U (pulse_duration ps) False @ '',''
       @ get_pwm_for_cmd U (pulse_power ps) @ '',''
       @ (case hs of Some h \<Rightarrow> int_to_hex_string U (hold_duration h) True | None \<Rightarrow> ''00'')
       @ '',''
       @ (case hs of Some h \<Rightarrow> get_hold_pwm_for_cmd U self (hold_power h) | None \<Rightarrow> ''00'')
       @ '',00''"

text \<open>The command the reconfigure-or-trigger decision of a pulse issues, and how.\<close>

definition first_pulse_cmd :: "Util \<Rightarrow> PulseSettings \<Rightarrow> HoldSettings option \<Rightarrow> FASTDriver \<Rightarrow> sent_cmd" where
  "first_pulse_cmd U ps hs self =
     (if cache_hit ps self then SendAndForget (retrigger_cmd self)
      else SendWithConfirmation (configure_and_fire_cmd U ps hs self) (driver_cmd self))"

text \<open>Manual trigger of the existing autofire rule: \<^verbatim>\<open><TRIGGER_CMD>:N,03\<close>\<close>

definition manual_trigger_cmd :: "FASTDriver \<Rightarrow> string" where
  "manual_trigger_cmd self = trigger_cmd self @ '':'' @ number self @ '',03''"

text \<open>
  Full sustained-enable configure:
  \<^verbatim>\<open><DRIVER_CMD>:N,C1,00,18,<dur_hex>,<pulse_pwm>,<hold_pwm>,<recycle_hex>\<close>
\<close>

definition sustained_enable_cmd :: "Util \<Rightarrow> PulseSettings \<Rightarrow> HoldSettings \<Rightarrow> FASTDriver \<Rightarrow> string" where
  "sustained_enable_cmd U ps hs self =
     driver_cmd self @ '':'' @ number self @ '',C1,00,18,''
       @ int_to_hex_string U (pulse_duration ps) False @ '',''
       @ get_pwm_for_cmd U (pulse_power ps) @ '',''
       @ get_hold_pwm_for_cmd U self (hold_power hs) @ '',''
       @ get_recycle_ms_for_cmd U self (default_recycle self) (pulse_duration ps)"

text \<open>
  Reproducible at 8 steps, as the specification words it: the fraction rounded to the
  nearest of the 8-step levels \<open>k / 8\<close> gives the fraction back within a tolerance \<open>tol\<close>.
\<close>

definition reproducible_at_8_steps :: "rat \<Rightarrow> rat \<Rightarrow> bool" where
  "reproducible_at_8_steps tol p = (\<bar>p - of_int (round (p * 8)) / 8\<bar> \<le> tol)"

section \<open>The serial communicator: \<^verbatim>\<open>mpf/platforms/fast/communicators/base.py\<close>\<close>

subsection \<open>Data\<close>

text \<open>
  Byte strings and text are both lists of \<open>char\<close> (a \<open>char\<close> is a byte). A Python \<^verbatim>\<open>str\<close> is
  represented by its UTF-8 encoding, so \<^verbatim>\<open>str.encode()\<close> is the identity and
  \<^verbatim>\<open>bytes.decode()\<close> succeeds exactly on well-formed UTF-8, where it is the identity too.
\<close>

datatype py_error = IndexError | UnicodeDecodeError

text \<open>The log calls of the modelled methods, with their arguments.\<close>

datatype log_msg =
  PortBlocked string
| FlowControlEnabled string int int
| SendingUntracked string
| SendText string
| SendBytes string

datatype log_record = LogWarning log_msg | LogDebug log_msg

text \<open>
  The communicator object. \<open>dmd\<close>, \<open>max_messages_in_flight\<close>, \<open>messages_in_flight\<close> and \<open>port\<close>
  are attributes the methods read but \<^verbatim>\<open>__init__\<close> does not set (a subclass does);
  \<open>debug_cfg\<close> is \<^verbatim>\<open>platform.config['debug']\<close>. \<open>send_ready\<close> is the state of the
  \<^verbatim>\<open>asyncio.Event\<close>, \<open>send_queue\<close> the content of the \<^verbatim>\<open>asyncio.Queue\<close>, oldest first.
  \<open>writer\<close> collects the arguments of \<^verbatim>\<open>writer.write\<close>, \<open>routed\<close> those of
  \<^verbatim>\<open>platform.process_received_message\<close>, \<open>log\<close> the log calls, all in call order.
\<close>

record FastSerialCommunicator =
  remote_processor :: string
  port :: string
  debug_cfg :: bool
  dmd :: bool
  max_messages_in_flight :: int
  messages_in_flight :: int
  send_ready :: bool
  send_queue :: "string list"
  received_msg :: string
  writer :: "string list"
  log :: "log_record list"
  routed :: "(string \<times> string) list"

definition CR :: char where
  "CR = CHR 0x0D"

subsection \<open>Sending\<close>

text \<open>
  \<^verbatim>\<open>_send\<close>. With debug on, \<^verbatim>\<open>msg[0]\<close> raises IndexError on an empty message, after the
  write. In the DMD branch the message is a byte string, whose first element is an int and
  so differs from \<^verbatim>\<open>"W"\<close> always.
\<close>

definition priv_send :: "string \<Rightarrow> FastSerialCommunicator \<Rightarrow> py_error option \<times> FastSerialCommunicator" where
  "priv_send msg self =
     (if dmd self then
        (let self1 = self\<lparr>writer := writer self @ [''BM:'' @ msg]\<rparr>
         in if debug_cfg self1 then
              (if msg = [] then (Some IndexError, self1)
               else (None, self1\<lparr>log := log self1 @ [LogDebug (SendBytes msg)]\<rparr>))
            else (None, self1))
      else if max_messages_in_flight self = 0 then
        (None, self\<lparr>writer := writer self @ [msg @ [CR]],
                     log := log self @ [LogDebug (SendingUntracked msg)]\<rparr>)
      else
        (let self1 = self\<lparr>messages_in_flight := messages_in_flight self + 1\<rparr>;
             self2 =
               (if messages_in_flight self1 > max_messages_in_flight self1
                then self1\<lparr>send_ready := False,
                           log := log self1 @
                             [LogDebug (FlowControlEnabled (remote_processor self1)
                                (messages_in_flight self1) (max_messages_in_flight self1))]\<rparr>
                else self1);
             self3 = self2\<lparr>writer := writer self2 @ [msg @ [CR]]\<rparr>
         in if debug_cfg self3 then
              (if msg = [] then (Some IndexError, self3)
               else if hd msg \<noteq> CHR ''W'' \<and> hd msg \<noteq> CHR ''L''
                    then (None, self3\<lparr>log := log self3 @ [LogDebug (SendText msg)]\<rparr>)
                    else (None, self3))
            else (None, self3)))"

text \<open>
  One round of the loop of \<^verbatim>\<open>_socket_writer\<close>. How
  \<^verbatim>\<open>asyncio.wait_for(self.send_ready.wait(), 1.0)\<close> ended is an input: the gate opened
  within the second, or the wait timed out. With an empty queue the task stays blocked in
  \<^verbatim>\<open>send_queue.get()\<close>: \<open>None\<close>.
\<close>

datatype wait_outcome = GateOpened | TimedOut

definition socket_writer_iteration ::
  "wait_outcome \<Rightarrow> FastSerialCommunicator \<Rightarrow> (py_error option \<times> FastSerialCommunicator) option" where
  "socket_writer_iteration outcome self =
     (case send_queue self of
        [] \<Rightarrow> None
      | msg # rest \<Rightarrow>
          (let self1 = self\<lparr>send_queue := rest\<rparr>;
               self2 =
                 (case outcome of
                    TimedOut \<Rightarrow>
                      self1\<lparr>log := log self1 @ [LogWarning (PortBlocked (port self1))],
                             messages_in_flight := 0,
                             send_ready := True\<rparr>
                  | GateOpened \<Rightarrow> self1)
           in Some (priv_send msg self2)))"

text \<open>A run of \<^verbatim>\<open>_send\<close> calls, one per message, whatever each call raised.\<close>

definition send_all :: "string list \<Rightarrow> FastSerialCommunicator \<Rightarrow> FastSerialCommunicator" where
  "send_all msgs self = fold (\<lambda>msg s. snd (priv_send msg s)) msgs self"

text \<open>The gate is open only if the in-flight counter is at most the configured maximum.\<close>

definition gate_inv :: "FastSerialCommunicator \<Rightarrow> bool" where
  "gate_inv self = (if send_ready self then messages_in_flight self \<le> max_messages_in_flight self else True)"

subsection \<open>Receiving\<close>

definition ignored_messages :: "string list" where
  "ignored_messages =
     [''RX:P'', ''SN:P'', ''SL:P'', ''LX:P'', ''PX:P'', ''DN:P'', ''DL:P'', ''XX:F'',
      ''R1:F'', ''L1:P'', ''GI:P'', ''TL:P'', ''TN:P'', ''XO:P'', ''XX:U'', ''XX:N'']"

text \<open>
  \<^verbatim>\<open>bytes.decode()\<close> is strict UTF-8: one to four bytes per code point, no overlong form,
  no surrogate, nothing above U+10FFFF.
\<close>

definition byte_in :: "nat \<Rightarrow> nat \<Rightarrow> char \<Rightarrow> bool" where
  "byte_in lo hi c = (lo \<le> (of_char c :: nat) \<and> (of_char c :: nat) \<le> hi)"

fun utf8_valid :: "string \<Rightarrow> bool" where
  "utf8_valid [] = True"
| "utf8_valid (a # bs) =
     (let n = (of_char a :: nat) in
      if n < 128 then utf8_valid bs
      else if 194 \<le> n \<and> n \<le> 223 then
        (case bs of b # r \<Rightarrow> byte_in 128 191 b \<and> utf8_valid r | _ \<Rightarrow> False)
      else if 224 \<le> n \<and> n \<le> 239 then
        (case bs of
           b # c # r \<Rightarrow>
             byte_in (if n = 224 then 160 else 128) (if n = 237 then 159 else 191) b
             \<and> byte_in 128 191 c \<and> utf8_valid r
         | _ \<Rightarrow> False)
      else if 240 \<le> n \<and> n \<le> 244 then
        (case bs of
           b # c # d # r \<Rightarrow>
             byte_in (if n = 240 then 144 else 128) (if n = 244 then 143 else 191) b
             \<and> byte_in 128 191 c \<and> byte_in 128 191 d \<and> utf8_valid r
         | _ \<Rightarrow> False)
      else False)"

definition decode :: "string \<Rightarrow> py_error + string" where
  "decode bs = (if utf8_valid bs then Inr bs else Inl UnicodeDecodeError)"

text \<open>\<^verbatim>\<open>bytes.find\<close>: the index of the first occurrence, or -1.\<close>

fun bytes_find :: "string \<Rightarrow> char \<Rightarrow> int" where
  "bytes_find [] c = - 1"
| "bytes_find (x # xs) c =
     (if x = c then 0
      else (let r = bytes_find xs c in if r = - 1 then - 1 else r + 1))"

text \<open>
  The loop of \<^verbatim>\<open>_parse_msg\<close> on the buffer and the list of routed messages, for the
  processor \<open>proc\<close>. A frame that does not decode raises out of the loop, after it was cut
  from the buffer.
\<close>

function parse_loop ::
  "string \<Rightarrow> string \<Rightarrow> (string \<times> string) list \<Rightarrow> py_error option \<times> string \<times> (string \<times> string) list" where
  "parse_loop proc buf out =
     (let pos = bytes_find buf CR in
      if pos = - 1 then (None, buf, out)
      else
        (let msg = take (nat pos) buf;
             buf' = drop (nat pos + 1) buf
         in if msg = [] then parse_loop proc buf' out
            else (case decode msg of
                    Inl e \<Rightarrow> (Some e, buf', out)
                  | Inr txt \<Rightarrow>
                      if txt \<notin> set ignored_messages
                      then parse_loop proc buf' (out @ [(txt, proc)])
                      else parse_loop proc buf' out)))"
  by pat_completeness auto
termination
  apply (relation "measure (\<lambda>(proc, buf, out). length buf)")
     apply simp
    apply (case_tac buf; simp)
   apply (case_tac buf; simp)
  apply (case_tac buf; simp)
  done

declare parse_loop.simps [simp del]

definition priv_parse_msg :: "string \<Rightarrow> FastSerialCommunicator \<Rightarrow> py_error option \<times> FastSerialCommunicator" where
  "priv_parse_msg msg self =
     (let (err, buf, out) =
            parse_loop (remote_processor self) (received_msg self @ msg) (routed self)
      in (err, self\<lparr>received_msg := buf, routed := out\<rparr>))"

text \<open>
  The framer as the specification words it: the complete frames of a buffer, delimiter
  stripped, and the unconsumed remainder after the last delimiter.
\<close>

fun split_frames :: "string \<Rightarrow> string list \<times> string" where
  "split_frames [] = ([], [])"
| "split_frames (c # cs) =
     (case split_frames cs of
        (fs, r) \<Rightarrow>
          if c = CR then ([] # fs, r)
          else (case fs of [] \<Rightarrow> ([], c # r) | f # fs' \<Rightarrow> ((c # f) # fs', r)))"

text \<open>What the dispatcher forwards of a list of frames, for the processor \<open>proc\<close>.\<close>

definition forwarded :: "string \<Rightarrow> string list \<Rightarrow> (string \<times> string) list" where
  "forwarded proc frames =
     map (\<lambda>f. (f, proc)) (filter (\<lambda>f. f \<noteq> [] \<and> f \<notin> set ignored_messages) frames)"

text \<open>A sample connection: a NET processor that allows two messages in flight.\<close>

definition sample_conn :: FastSerialCommunicator where
  "sample_conn =
     \<lparr>remote_processor = ''NET'', port = ''com3'', debug_cfg = False, dmd = False,
      max_messages_in_flight = 2, messages_in_flight = 0, send_ready = True,
      send_queue = [], received_msg = [], writer = [], log = [], routed = []\<rparr>"

text \<open>
  Sample input: a chunk with an ignored acknowledgement, an empty frame, a switch event and
  the start of a frame; the chunk that completes that frame; and a chunk whose first frame
  is the single byte FF, which is not UTF-8.
\<close>

definition sample_chunk :: string where
  "sample_chunk = ''SN:P'' @ [CR] @ [CR] @ ''-N:1A'' @ [CR] @ ''WD:''"

definition sample_chunk' :: string where
  "sample_chunk' = ''P'' @ [CR] @ ''ID:''"

definition undecodable_chunk :: string where
  "undecodable_chunk = [CHR 0xFF, CR] @ ''AB'' @ [CR]"

text \<open>A connection stalled behind a closed gate, three messages counted in flight.\<close>

definition stalled_conn :: FastSerialCommunicator where
  "stalled_conn = sample_conn\<lparr>messages_in_flight := 3, send_ready := False\<rparr>"

section \<open>Properties of the driver\<close>

subsection \<open>Helper facts\<close>

lemma get_hold_pwm_for_cmd_update [simp]:
  "get_hold_pwm_for_cmd U (self\<lparr>config_state := c\<rparr>) p = get_hold_pwm_for_cmd U self p"
  "get_hold_pwm_for_cmd U (self\<lparr>autofire_cleared := b\<rparr>) p = get_hold_pwm_for_cmd U self p"
  by (simp_all add: get_hold_pwm_for_cmd_def)

lemma get_recycle_ms_for_cmd_update [simp]:
  "get_recycle_ms_for_cmd U (self\<lparr>autofire_cleared := b\<rparr>) r d =
     get_recycle_ms_for_cmd U self r d"
  by (simp add: get_recycle_ms_for_cmd_def)

lemmas driver_defs =
  priv_pulse_def reenable_autofire_if_configured_def first_pulse_cmd_def
  cache_hit_def retrigger_cmd_def configure_and_fire_cmd_def requested_tuple_def
  send_and_forget_def send_with_confirmation_def Let_def

text \<open>A pulse on an output with no autofire binding: one command, the decision's.\<close>

lemma priv_pulse_no_autofire:
  "autofire self = None \<Longrightarrow>
   sent (snd (priv_pulse U ps hs self)) = sent self @ [first_pulse_cmd U ps hs self] \<and>
   config_state (snd (priv_pulse U ps hs self)) =
     (if cache_hit ps self then config_state self else Some (requested_tuple ps hs))"
  by (cases hs; cases "config_state self") (auto simp: driver_defs split: prod.splits)

text \<open>
  A pulse on an output with an autofire binding: the rule is sent again when the binding
  was suspended before, or the pulse reconfigured the output.
\<close>

lemma priv_pulse_autofire:
  "autofire self = Some (cmd, t) \<Longrightarrow>
   autofire (snd (priv_pulse U ps hs self)) = Some (cmd, t) \<and>
   \<not> autofire_cleared (snd (priv_pulse U ps hs self)) \<and>
   sent (snd (priv_pulse U ps hs self)) =
     sent self @ first_pulse_cmd U ps hs self #
       (if autofire_cleared self \<or> \<not> cache_hit ps self
        then [SendWithConfirmation cmd (driver_cmd self)] else []) \<and>
   config_state (snd (priv_pulse U ps hs self)) =
     (if autofire_cleared self \<or> \<not> cache_hit ps self then Some t else config_state self)"
  by (cases hs; cases "config_state self") (auto simp: driver_defs split: prod.splits)

lemma py_int_nonneg: "0 \<le> x \<Longrightarrow> py_int x = \<lfloor>x\<rfloor>"
  by (simp add: py_int_def)

text \<open>
  Where the test of the source holds, \<open>frac (8 p) < 0.025\<close>, rounding and truncation give
  the same level, which reproduces the fraction within 0.025 of a step.
\<close>

lemma truncated_level_reproduces:
  assumes "p * 8 - of_int \<lfloor>p * 8\<rfloor> < 25 / 1000"
  shows "round (p * 8) = \<lfloor>p * 8\<rfloor>" and "reproducible_at_8_steps (1 / 320) p"
proof -
  have lo: "of_int \<lfloor>p * 8\<rfloor> \<le> p * 8" by (rule of_int_floor_le)
  have a: "of_int \<lfloor>p * 8\<rfloor> \<le> p * 8 + 1 / 2" using lo by linarith
  have b: "p * 8 + 1 / 2 < of_int \<lfloor>p * 8\<rfloor> + 1" using assms by linarith
  show r: "round (p * 8) = \<lfloor>p * 8\<rfloor>"
    unfolding round_def using a b by (rule floor_unique)
  have "0 \<le> p - of_int \<lfloor>p * 8\<rfloor> / 8" using lo by linarith
  moreover have "p - of_int \<lfloor>p * 8\<rfloor> / 8 \<le> 1 / 320" using assms by linarith
  ultimately have "\<bar>p - of_int \<lfloor>p * 8\<rfloor> / 8\<bar> \<le> 1 / 320" by simp
  then show "reproducible_at_8_steps (1 / 320) p"
    by (simp add: reproducible_at_8_steps_def r)
qed

subsection \<open>Pulse and timed enable\<close>

text \<open>
  \<^item> C1, as amended. For every output and every pulse or timed-enable request, the first
  command of the operation is decided by the cache alone: the short re-trigger
  \<^verbatim>\<open><TRIGGER_CMD>:N,01\<close> (sent and forgotten) if the cached Driver Command State is set and
  its pulse duration and pulse power equal the requested ones, the full configure-and-fire
  command (trigger 89, sent with confirmation) otherwise. With no autofire binding that
  command is the only one, and on the full path the cache ends as the requested (duration,
  pulse power, hold power), hold power 0 for a plain pulse. With an autofire binding that
  is suspended when the command has gone out (it was suspended before, or the full path was
  taken), the stored autofire rule follows as a second command and the cache ends as the
  binding's tuple; with a binding that is not suspended nothing follows and the cache is
  left as it was.
\<close>

theorem pulse_decision:
  "sent (snd (priv_pulse U ps hs self)) =
     sent self @ first_pulse_cmd U ps hs self #
       (case autofire self of
          Some (cmd, t) \<Rightarrow>
            if autofire_cleared self \<or> \<not> cache_hit ps self
            then [SendWithConfirmation cmd (driver_cmd self)] else []
        | None \<Rightarrow> [])
   \<and> config_state (snd (priv_pulse U ps hs self)) =
     (case autofire self of
        Some (cmd, t) \<Rightarrow>
          if autofire_cleared self \<or> \<not> cache_hit ps self then Some t else config_state self
      | None \<Rightarrow>
          if cache_hit ps self then config_state self else Some (requested_tuple ps hs))"
proof (cases "autofire self")
  case None
  then show ?thesis using priv_pulse_no_autofire [OF None, of U ps hs] by simp
next
  case (Some a)
  obtain cmd t where a: "a = (cmd, t)" by (cases a)
  from Some a have "autofire self = Some (cmd, t)" by simp
  from priv_pulse_autofire [OF this, of U ps hs] Some a show ?thesis by simp
qed

text \<open>
  A fresh output: the first pulse reconfigures and caches the request, the same pulse again
  only re-triggers.
\<close>

theorem pulse_decision_witness:
  "sent (snd (priv_pulse sample_util \<lparr>pulse_power = 1, pulse_duration = 20\<rparr> None sample_driver))
     = [SendWithConfirmation ''DL:07,89,00,10,14,P8,00,00,00'' ''DL'']
   \<and> config_state (snd (priv_pulse sample_util \<lparr>pulse_power = 1, pulse_duration = 20\<rparr> None
        sample_driver)) = Some (20, 1, 0)
   \<and> sent (snd (priv_pulse sample_util \<lparr>pulse_power = 1, pulse_duration = 20\<rparr> None
        (pulse sample_util \<lparr>pulse_power = 1, pulse_duration = 20\<rparr> sample_driver)))
     = [SendWithConfirmation ''DL:07,89,00,10,14,P8,00,00,00'' ''DL'', SendAndForget ''TL:07,01'']"
proof -
  let ?ps = "\<lparr>pulse_power = 1, pulse_duration = 20\<rparr>"
  let ?s = "pulse sample_util ?ps sample_driver"
  have a: "autofire sample_driver = None" "sent sample_driver = []"
    "\<not> cache_hit ?ps sample_driver"
    "first_pulse_cmd sample_util ?ps None sample_driver
       = SendWithConfirmation ''DL:07,89,00,10,14,P8,00,00,00'' ''DL''"
    "requested_tuple ?ps None = (20, 1, 0)"
    by code_simp+
  have b: "autofire ?s = None"
    "sent ?s = [SendWithConfirmation ''DL:07,89,00,10,14,P8,00,00,00'' ''DL'']"
    "first_pulse_cmd sample_util ?ps None ?s = SendAndForget ''TL:07,01''"
    by code_simp+
  from pulse_decision [of sample_util ?ps None sample_driver]
       pulse_decision [of sample_util ?ps None ?s] a b
  show ?thesis by simp
qed

text \<open>
  C1 as stated fails on an output with an autofire rule for (10 ms, power 1, hold 0): a
  pulse of 20 ms at power 1 misses the cache, sends the 89 command and then the autofire
  rule again, and the cache ends as the rule's tuple, not as the requested (20, 1, 0).
\<close>

theorem pulse_decision_counterexample:
  "sent (pulse sample_util \<lparr>pulse_power = 1, pulse_duration = 20\<rparr>
          (set_autofire ''AF'' 10 1 0 sample_driver)) =
     [SendWithConfirmation ''AF'' ''DL'',
      SendWithConfirmation ''DL:07,89,00,10,14,P8,00,00,00'' ''DL'',
      SendWithConfirmation ''AF'' ''DL'']
   \<and> config_state (pulse sample_util \<lparr>pulse_power = 1, pulse_duration = 20\<rparr>
          (set_autofire ''AF'' 10 1 0 sample_driver)) = Some (10, 1, 0)
   \<and> config_state (pulse sample_util \<lparr>pulse_power = 1, pulse_duration = 20\<rparr>
          (set_autofire ''AF'' 10 1 0 sample_driver)) \<noteq> Some (20, 1, 0)"
  by code_simp

text \<open>
  \<^item> C8: a pulse or timed enable on an output whose autofire binding exists and is suspended
  (by an earlier operation, or by this one when it takes the full path) ends by sending the
  stored autofire rule, with the suspended flag cleared and the cached Driver Command State
  equal to the binding's tuple; the binding itself is kept.
\<close>

theorem pulse_rearms_suspended_autofire:
  assumes "autofire self = Some (cmd, t)"
      and "autofire_cleared self \<or> \<not> cache_hit ps self"
  shows "sent (snd (priv_pulse U ps hs self)) =
           sent self @ [first_pulse_cmd U ps hs self, SendWithConfirmation cmd (driver_cmd self)]
         \<and> \<not> autofire_cleared (snd (priv_pulse U ps hs self))
         \<and> config_state (snd (priv_pulse U ps hs self)) = Some t
         \<and> autofire (snd (priv_pulse U ps hs self)) = Some (cmd, t)"
  using priv_pulse_autofire [OF assms(1), of U ps hs] assms(2) by auto

text \<open>
  The binding of this run was suspended by an \<open>enable\<close> with other settings; the pulse that
  follows hits the cache that \<open>enable\<close> left, and re-arms the rule.
\<close>

theorem pulse_rearms_suspended_autofire_witness:
  "autofire (enable sample_util \<lparr>pulse_power = 1, pulse_duration = 1\<rparr>
               \<lparr>hold_power = 1 / 2, hold_duration = 0\<rparr>
               (set_autofire ''AF'' 10 1 0 sample_driver)) = Some (''AF'', (10, 1, 0))
   \<and> autofire_cleared (enable sample_util \<lparr>pulse_power = 1, pulse_duration = 1\<rparr>
               \<lparr>hold_power = 1 / 2, hold_duration = 0\<rparr>
               (set_autofire ''AF'' 10 1 0 sample_driver))
   \<and> sent (snd (priv_pulse sample_util \<lparr>pulse_power = 1, pulse_duration = 1\<rparr> None
              (enable sample_util \<lparr>pulse_power = 1, pulse_duration = 1\<rparr>
                 \<lparr>hold_power = 1 / 2, hold_duration = 0\<rparr>
                 (set_autofire ''AF'' 10 1 0 sample_driver)))) =
       [SendWithConfirmation ''AF'' ''DL'',
        SendAndForget ''DL:07,C1,00,18,01,P8,P4,02'',
        SendAndForget ''TL:07,01'',
        SendWithConfirmation ''AF'' ''DL'']
   \<and> \<not> autofire_cleared (snd (priv_pulse sample_util \<lparr>pulse_power = 1, pulse_duration = 1\<rparr> None
              (enable sample_util \<lparr>pulse_power = 1, pulse_duration = 1\<rparr>
                 \<lparr>hold_power = 1 / 2, hold_duration = 0\<rparr>
                 (set_autofire ''AF'' 10 1 0 sample_driver))))
   \<and> config_state (snd (priv_pulse sample_util \<lparr>pulse_power = 1, pulse_duration = 1\<rparr> None
              (enable sample_util \<lparr>pulse_power = 1, pulse_duration = 1\<rparr>
                 \<lparr>hold_power = 1 / 2, hold_duration = 0\<rparr>
                 (set_autofire ''AF'' 10 1 0 sample_driver)))) = Some (10, 1, 0)"
proof -
  let ?s = "enable sample_util \<lparr>pulse_power = 1, pulse_duration = 1\<rparr>
              \<lparr>hold_power = 1 / 2, hold_duration = 0\<rparr>
              (set_autofire ''AF'' 10 1 0 sample_driver)"
  let ?ps = "\<lparr>pulse_power = 1, pulse_duration = 1\<rparr>"
  have a: "autofire ?s = Some (''AF'', (10, 1, 0))"
    by code_simp
  have b: "autofire_cleared ?s"
    by code_simp
  have c: "first_pulse_cmd sample_util ?ps None ?s = SendAndForget ''TL:07,01''"
    by code_simp
  have d: "sent ?s = [SendWithConfirmation ''AF'' ''DL'',
                      SendAndForget ''DL:07,C1,00,18,01,P8,P4,02'']"
    by code_simp
  have e: "driver_cmd ?s = ''DL''"
    by code_simp
  from pulse_rearms_suspended_autofire [OF a disjI1 [OF b], of sample_util ?ps None] a b c d e
  show ?thesis by simp
qed

text \<open>
  \<^item> C10: when \<open>clear_autofire\<close> returns, the autofire binding and the cached Driver Command
  State are both unset; the pulse or timed enable that comes next sends the full
  configure-and-fire command (trigger 89) with confirmation, and nothing else, and caches
  the requested tuple.
\<close>

theorem clear_autofire_forces_reconfiguration:
  "autofire (clear_autofire config_cmd num self) = None
   \<and> config_state (clear_autofire config_cmd num self) = None
   \<and> sent (snd (priv_pulse U ps hs (clear_autofire config_cmd num self))) =
       sent (clear_autofire config_cmd num self)
         @ [SendWithConfirmation (configure_and_fire_cmd U ps hs self) (driver_cmd self)]
   \<and> config_state (snd (priv_pulse U ps hs (clear_autofire config_cmd num self))) =
       Some (requested_tuple ps hs)"
proof -
  let ?s = "clear_autofire config_cmd num self"
  have a: "autofire ?s = None" and c: "config_state ?s = None"
    by (simp_all add: clear_autofire_def send_with_confirmation_def)
  have h: "\<not> cache_hit ps ?s" by (simp add: cache_hit_def c)
  have f: "first_pulse_cmd U ps hs ?s =
             SendWithConfirmation (configure_and_fire_cmd U ps hs self) (driver_cmd self)"
    by (cases hs)
       (simp_all add: first_pulse_cmd_def cache_hit_def configure_and_fire_cmd_def
         clear_autofire_def send_with_confirmation_def get_hold_pwm_for_cmd_def)
  from priv_pulse_no_autofire [OF a, of U ps hs] a c h f show ?thesis by simp
qed

text \<open>
  An output whose rule is cleared and which is then pulsed with the rule's old settings.
\<close>

theorem clear_autofire_forces_reconfiguration_witness:
  "autofire (clear_autofire ''DL:'' ''07'' (set_autofire ''AF'' 10 1 0 sample_driver)) = None
   \<and> config_state (clear_autofire ''DL:'' ''07'' (set_autofire ''AF'' 10 1 0 sample_driver)) = None
   \<and> sent (snd (priv_pulse sample_util \<lparr>pulse_power = 1, pulse_duration = 10\<rparr> None
        (clear_autofire ''DL:'' ''07'' (set_autofire ''AF'' 10 1 0 sample_driver))))
     = [SendWithConfirmation ''AF'' ''DL'', SendWithConfirmation ''DL:07,81'' ''DL'',
        SendWithConfirmation ''DL:07,89,00,10,0A,P8,00,00,00'' ''DL'']"
proof -
  let ?ps = "\<lparr>pulse_power = 1, pulse_duration = 10\<rparr>"
  let ?s = "set_autofire ''AF'' 10 1 0 sample_driver"
  have a: "sent (clear_autofire ''DL:'' ''07'' ?s)
             = [SendWithConfirmation ''AF'' ''DL'', SendWithConfirmation ''DL:07,81'' ''DL'']"
    "configure_and_fire_cmd sample_util ?ps None ?s = ''DL:07,89,00,10,0A,P8,00,00,00''"
    "driver_cmd ?s = ''DL''"
    by code_simp+
  from clear_autofire_forces_reconfiguration [of "''DL:''" "''07''" ?s sample_util ?ps None] a
  show ?thesis by simp
qed

subsection \<open>Enable\<close>

text \<open>
  \<^item> C2, as amended. For every output and every enable request, \<open>enable\<close> sends one command,
  and forgets it: the manual trigger \<^verbatim>\<open><TRIGGER_CMD>:N,03\<close> if and only if an autofire
  binding exists and the cached Driver Command State (not the binding's own tuple) equals
  the requested (pulse duration, pulse power, hold power); in every other case the full
  sustained-enable configuration (trigger C1, mode 18), and then the binding is marked as
  suspended. The binding itself is not touched.
\<close>

theorem enable_decision:
  "sent (enable U ps hs self) =
     sent self @
       [SendAndForget
          (if autofire self \<noteq> None
              \<and> config_state self = Some (pulse_duration ps, pulse_power ps, hold_power hs)
           then manual_trigger_cmd self else sustained_enable_cmd U ps hs self)]
   \<and> autofire_cleared (enable U ps hs self) =
       (if autofire self \<noteq> None
           \<and> config_state self = Some (pulse_duration ps, pulse_power ps, hold_power hs)
        then autofire_cleared self else True)
   \<and> autofire (enable U ps hs self) = autofire self"
  by (simp add: enable_def manual_trigger_cmd_def sustained_enable_cmd_def
      send_and_forget_def Let_def)

text \<open>
  With the rule's own settings right after \<open>set_autofire\<close> the 03 trigger goes out; on a fresh
  output the full C1 command does, and the suspended flag is set.
\<close>

theorem enable_decision_witness:
  "sent (enable sample_util \<lparr>pulse_power = 1, pulse_duration = 10\<rparr>
           \<lparr>hold_power = 1 / 2, hold_duration = 0\<rparr>
           (set_autofire ''AF'' 10 1 (1 / 2) sample_driver))
     = [SendWithConfirmation ''AF'' ''DL'', SendAndForget ''TL:07,03'']
   \<and> \<not> autofire_cleared (enable sample_util \<lparr>pulse_power = 1, pulse_duration = 10\<rparr>
           \<lparr>hold_power = 1 / 2, hold_duration = 0\<rparr>
           (set_autofire ''AF'' 10 1 (1 / 2) sample_driver))
   \<and> sent (enable sample_util \<lparr>pulse_power = 1, pulse_duration = 10\<rparr>
           \<lparr>hold_power = 1 / 2, hold_duration = 0\<rparr> sample_driver)
     = [SendAndForget ''DL:07,C1,00,18,0A,P8,P4,14'']
   \<and> autofire_cleared (enable sample_util \<lparr>pulse_power = 1, pulse_duration = 10\<rparr>
           \<lparr>hold_power = 1 / 2, hold_duration = 0\<rparr> sample_driver)"
proof -
  let ?ps = "\<lparr>pulse_power = 1, pulse_duration = 10\<rparr>"
  let ?hs = "\<lparr>hold_power = 1 / 2, hold_duration = 0\<rparr>"
  let ?s = "set_autofire ''AF'' 10 1 (1 / 2) sample_driver"
  have a: "autofire ?s = Some (''AF'', (10, 1, 1 / 2))" "config_state ?s = Some (10, 1, 1 / 2)"
    "sent ?s = [SendWithConfirmation ''AF'' ''DL'']" "\<not> autofire_cleared ?s"
    "manual_trigger_cmd ?s = ''TL:07,03''"
    "pulse_duration ?ps = 10" "pulse_power ?ps = 1" "hold_power ?hs = 1 / 2"
    by code_simp+
  have b: "autofire sample_driver = None" "sent sample_driver = []"
    "sustained_enable_cmd sample_util ?ps ?hs sample_driver = ''DL:07,C1,00,18,0A,P8,P4,14''"
    by code_simp+
  from enable_decision [of sample_util ?ps ?hs ?s]
       enable_decision [of sample_util ?ps ?hs sample_driver] a b
  show ?thesis by simp
qed

text \<open>
  C2 as stated fails after an \<open>enable\<close> with other settings: the binding's tuple is still
  (10, 1, 1/2), an \<open>enable\<close> asking for exactly (10, 1, 1/2) follows, and what goes out is the
  full C1 command, not the 03 trigger, because the cache no longer holds that tuple.
\<close>

theorem enable_decision_counterexample:
  "autofire (enable sample_util \<lparr>pulse_power = 1, pulse_duration = 20\<rparr>
               \<lparr>hold_power = 1 / 2, hold_duration = 0\<rparr>
               (set_autofire ''AF'' 10 1 (1 / 2) sample_driver))
     = Some (''AF'', (10, 1, 1 / 2))
   \<and> sent (enable sample_util \<lparr>pulse_power = 1, pulse_duration = 10\<rparr>
             \<lparr>hold_power = 1 / 2, hold_duration = 0\<rparr>
             (enable sample_util \<lparr>pulse_power = 1, pulse_duration = 20\<rparr>
               \<lparr>hold_power = 1 / 2, hold_duration = 0\<rparr>
               (set_autofire ''AF'' 10 1 (1 / 2) sample_driver)))
     = [SendWithConfirmation ''AF'' ''DL'',
        SendAndForget ''DL:07,C1,00,18,14,P8,P4,28'',
        SendAndForget ''DL:07,C1,00,18,0A,P8,P4,14'']"
  by code_simp

text \<open>
  \<^item> C3 does not hold of the code. On a fresh output, \<open>enable\<close> with pulse (10 ms, power 1/2)
  and hold power 1/4 takes the full-configuration path and writes that configuration to
  the board, but caches the duration in the place of the pulse power: (10, 10, 1/4)
  instead of (10, 1/2, 1/4).
\<close>

theorem enable_cache_duration_twice:
  "config_state (enable sample_util \<lparr>pulse_power = 1 / 2, pulse_duration = 10\<rparr>
                   \<lparr>hold_power = 1 / 4, hold_duration = 0\<rparr> sample_driver)
     = Some (10, 10, 1 / 4)
   \<and> config_state (enable sample_util \<lparr>pulse_power = 1 / 2, pulse_duration = 10\<rparr>
                   \<lparr>hold_power = 1 / 4, hold_duration = 0\<rparr> sample_driver)
     \<noteq> Some (10, 1 / 2, 1 / 4)
   \<and> sent (enable sample_util \<lparr>pulse_power = 1 / 2, pulse_duration = 10\<rparr>
                   \<lparr>hold_power = 1 / 4, hold_duration = 0\<rparr> sample_driver)
     = [SendAndForget ''DL:07,C1,00,18,0A,P4,P2,14'']"
  by code_simp

subsection \<open>Disable\<close>

text \<open>
  \<^item> C7: a \<open>disable\<close> right after \<open>set_autofire\<close> hands exactly two commands to the connection,
  in this order: the immediate-disable trigger \<^verbatim>\<open><TRIGGER_CMD>:N,02\<close> and the
  re-enable-autofire trigger \<^verbatim>\<open><TRIGGER_CMD>:N,00\<close>, both sent and forgotten.
\<close>

theorem disable_after_set_autofire:
  "sent (disable (set_autofire autofire_cmd d p h self)) =
     sent (set_autofire autofire_cmd d p h self)
       @ [SendAndForget (trigger_cmd self @ '':'' @ number self @ '',02''),
          SendAndForget (trigger_cmd self @ '':'' @ number self @ '',00'')]"
  by (simp add: disable_def set_autofire_def reenable_autofire_if_configured_def
      send_and_forget_def send_with_confirmation_def Let_def)

text \<open>
  The two triggers of output 07.
\<close>

theorem disable_after_set_autofire_witness:
  "sent (disable (set_autofire ''AF'' 10 1 0 sample_driver)) =
     [SendWithConfirmation ''AF'' ''DL'', SendAndForget ''TL:07,02'', SendAndForget ''TL:07,00'']"
proof -
  have a: "sent (set_autofire ''AF'' 10 1 0 sample_driver) = [SendWithConfirmation ''AF'' ''DL'']"
    "trigger_cmd sample_driver @ '':'' @ number sample_driver @ '',02'' = ''TL:07,02''"
    "trigger_cmd sample_driver @ '':'' @ number sample_driver @ '',00'' = ''TL:07,00''"
    by code_simp+
  from disable_after_set_autofire [of "''AF''" 10 1 0 sample_driver] a
  show ?thesis by simp
qed

subsection \<open>Power encoding\<close>

text \<open>
  \<^item> C9, as amended. For a power fraction \<open>p\<close> in the unit interval, \<open>get_pwm_for_cmd\<close> returns
  the 8-step encoding, of the level \<open>\<lfloor>8 p\<rfloor>\<close>, exactly when \<open>p\<close> lies at that level or above
  it by less than 0.025 of a step (\<open>p - \<lfloor>8 p\<rfloor> / 8 < 1 / 320\<close>), and the 32-step encoding,
  of \<open>\<lfloor>32 p\<rfloor>\<close>, otherwise. So the 8-step encoder is chosen only for fractions that are
  reproducible at 8 steps within that tolerance, and for each level \<open>k / 8\<close> itself, among
  them 0, 0.125, 0.5 and 1; 0.3333, and every fraction within 0.0001 of it (such as the
  float nearest to it), takes the 32-step encoder with value 10.
\<close>

theorem get_pwm_for_cmd_choice:
  "(0 \<le> p \<and> p \<le> 1 \<longrightarrow>
      get_pwm_for_cmd U p =
        (if p - of_int \<lfloor>p * 8\<rfloor> / 8 < 1 / 320
         then upper (pwm8_to_hex_string U \<lfloor>p * 8\<rfloor>)
         else upper (pwm32_to_hex_string U \<lfloor>p * 32\<rfloor>)))
   \<and> (0 \<le> p \<and> p \<le> 1 \<and> p - of_int \<lfloor>p * 8\<rfloor> / 8 < 1 / 320 \<longrightarrow>
        reproducible_at_8_steps (1 / 320) p \<and> round (p * 8) = \<lfloor>p * 8\<rfloor>)
   \<and> (k \<in> {0 .. 8} \<longrightarrow> get_pwm_for_cmd U (of_int k / 8) = upper (pwm8_to_hex_string U k))
   \<and> get_pwm_for_cmd U 0 = upper (pwm8_to_hex_string U 0)
   \<and> get_pwm_for_cmd U (125 / 1000) = upper (pwm8_to_hex_string U 1)
   \<and> get_pwm_for_cmd U (5 / 10) = upper (pwm8_to_hex_string U 4)
   \<and> get_pwm_for_cmd U 1 = upper (pwm8_to_hex_string U 8)
   \<and> get_pwm_for_cmd U (3333 / 10000) = upper (pwm32_to_hex_string U 10)
   \<and> (3332 / 10000 \<le> q \<and> q \<le> 3334 / 10000 \<longrightarrow>
        get_pwm_for_cmd U q = upper (pwm32_to_hex_string U 10))"
proof -
  have test: "(p * 8 - of_int \<lfloor>p * 8\<rfloor> < 25 / 1000) = (p - of_int \<lfloor>p * 8\<rfloor> / 8 < 1 / 320)"
    for p :: rat
    by linarith
  have gen: "get_pwm_for_cmd U p =
        (if p - of_int \<lfloor>p * 8\<rfloor> / 8 < 1 / 320
         then upper (pwm8_to_hex_string U \<lfloor>p * 8\<rfloor>)
         else upper (pwm32_to_hex_string U \<lfloor>p * 32\<rfloor>))" if "0 \<le> p" "p \<le> 1" for p
    using that test [of p] by (simp add: get_pwm_for_cmd_def py_int_nonneg)
  have repro: "reproducible_at_8_steps (1 / 320) p \<and> round (p * 8) = \<lfloor>p * 8\<rfloor>"
    if "p - of_int \<lfloor>p * 8\<rfloor> / 8 < 1 / 320" for p
    using truncated_level_reproduces [of p] that test [of p] by simp
  have lvl: "get_pwm_for_cmd U (of_int k / 8) = upper (pwm8_to_hex_string U k)"
    if "0 \<le> k" for k :: int
    using that by (simp add: get_pwm_for_cmd_def py_int_nonneg)
  have near: "get_pwm_for_cmd U q = upper (pwm32_to_hex_string U 10)"
    if q: "3332 / 10000 \<le> q" "q \<le> 3334 / 10000" for q
  proof -
    have q01: "0 \<le> q" "q \<le> 1" using q by simp_all
    have a: "\<lfloor>q * 8\<rfloor> = 2" using q by (intro floor_unique) simp_all
    have b: "\<lfloor>q * 32\<rfloor> = 10" using q by (intro floor_unique) simp_all
    have c: "\<not> q - of_int \<lfloor>q * 8\<rfloor> / 8 < 1 / 320" using q unfolding a by simp
    with gen [OF q01] b show ?thesis by simp
  qed
  from gen repro lvl [of 0] lvl [of 1] lvl [of 4] lvl [of 8] lvl [of k]
       near [of "3333 / 10000"] near [of q]
  show ?thesis by auto
qed

text \<open>
  Three quarters is a level, 0.127 lies 0.016 of a step above a level, and one third is
  the fraction of the specification's example.
\<close>

theorem get_pwm_for_cmd_choice_witness:
  "(0::rat) \<le> 3 / 4 \<and> (3 / 4 :: rat) \<le> 1
   \<and> get_pwm_for_cmd sample_util (3 / 4) = ''P6''
   \<and> (0::rat) \<le> 127 / 1000 \<and> (127 / 1000 :: rat) \<le> 1
   \<and> get_pwm_for_cmd sample_util (127 / 1000) = ''P1''
   \<and> reproducible_at_8_steps (1 / 320) (127 / 1000)
   \<and> (6::int) \<in> {0 .. 8} \<and> get_pwm_for_cmd sample_util (of_int 6 / 8) = ''P6''
   \<and> (3332 / 10000 :: rat) \<le> 1 / 3 \<and> (1 / 3 :: rat) \<le> 3334 / 10000
   \<and> get_pwm_for_cmd sample_util (1 / 3) = ''Q0A''"
proof -
  have f: "\<lfloor>127 / 125 :: rat\<rfloor> = 1"
    by (simp add: floor_unique)
  have u: "upper (pwm8_to_hex_string sample_util 6) = ''P6''"
          "upper (pwm8_to_hex_string sample_util 1) = ''P1''"
          "upper (pwm32_to_hex_string sample_util 10) = ''Q0A''"
    by code_simp+
  from get_pwm_for_cmd_choice [of "3 / 4" sample_util 6 "1 / 3"]
       get_pwm_for_cmd_choice [of "127 / 1000" sample_util 6 "1 / 3"] f u
  show ?thesis by simp
qed

text \<open>
  C9 as stated fails just below a level. The fraction 0.9999 rounds to the level 8/8, which
  gives it back within 0.0001, and 0.124 rounds to 1/8, which gives it back within 0.001:
  both are reproducible at 8 steps, within 0.025 of a step and within far less. The code
  truncates instead of rounding, so both take the 32-step encoder, with the values 31 and
  3, and not the 8-step encoder with the levels 8 and 1.
\<close>

theorem get_pwm_for_cmd_choice_counterexample:
  "reproducible_at_8_steps (1 / 320) (9999 / 10000)
   \<and> reproducible_at_8_steps (1 / 10000) (9999 / 10000)
   \<and> round (9999 / 10000 * 8 :: rat) = 8
   \<and> get_pwm_for_cmd sample_util (9999 / 10000) = upper (pwm32_to_hex_string sample_util 31)
   \<and> get_pwm_for_cmd sample_util (9999 / 10000) = ''Q1F''
   \<and> upper (pwm8_to_hex_string sample_util 8) = ''P8''
   \<and> reproducible_at_8_steps (1 / 320) (124 / 1000)
   \<and> reproducible_at_8_steps (1 / 1000) (124 / 1000)
   \<and> round (124 / 1000 * 8 :: rat) = 1
   \<and> get_pwm_for_cmd sample_util (124 / 1000) = upper (pwm32_to_hex_string sample_util 3)
   \<and> get_pwm_for_cmd sample_util (124 / 1000) = ''Q03''
   \<and> upper (pwm8_to_hex_string sample_util 1) = ''P1''"
  by code_simp

section \<open>Properties of the communicator\<close>

subsection \<open>Helper facts about sending\<close>

lemma priv_send_writer:
  "writer (snd (priv_send msg self)) =
     writer self @ [if dmd self then ''BM:'' @ msg else msg @ [CR]]"
  by (simp add: priv_send_def Let_def)

lemma priv_send_config:
  "dmd (snd (priv_send msg self)) = dmd self"
  "max_messages_in_flight (snd (priv_send msg self)) = max_messages_in_flight self"
  by (simp_all add: priv_send_def Let_def)

lemma priv_send_counter:
  "messages_in_flight (snd (priv_send msg self)) =
     (if dmd self \<or> max_messages_in_flight self = 0 then messages_in_flight self
      else messages_in_flight self + 1)"
  by (simp add: priv_send_def Let_def)

lemma priv_send_gate:
  "send_ready (snd (priv_send msg self)) =
     (if dmd self \<or> max_messages_in_flight self = 0 then send_ready self
      else send_ready self \<and> messages_in_flight self + 1 \<le> max_messages_in_flight self)"
  by (auto simp add: priv_send_def Let_def)

lemma priv_send_log:
  "\<exists>more. log (snd (priv_send msg self)) = log self @ more"
  by (simp add: priv_send_def Let_def)

lemma priv_send_queue:
  "send_queue (snd (priv_send msg self)) = send_queue self"
  by (simp add: priv_send_def Let_def)

lemma send_all_Cons: "send_all (m # ms) self = send_all ms (snd (priv_send m self))"
  by (simp add: send_all_def)

lemma send_all_dmd: "dmd (send_all msgs self) = dmd self"
  by (induction msgs arbitrary: self) (simp_all add: send_all_def priv_send_config)

lemma send_all_max:
  "max_messages_in_flight (send_all msgs self) = max_messages_in_flight self"
  by (induction msgs arbitrary: self) (simp_all add: send_all_def priv_send_config)

lemmas send_all_config = send_all_dmd send_all_max

lemma send_all_gate_closed:
  "\<not> send_ready self \<Longrightarrow> \<not> send_ready (send_all msgs self)"
  by (induction msgs arbitrary: self) (simp_all add: send_all_def priv_send_gate)

lemma send_all_inv:
  "0 < max_messages_in_flight self \<Longrightarrow> gate_inv self \<Longrightarrow> gate_inv (send_all msgs self)"
proof (induction msgs arbitrary: self)
  case Nil
  then show ?case by (simp add: send_all_def)
next
  case (Cons m ms)
  have "gate_inv (snd (priv_send m self))"
    using Cons.prems by (auto simp: gate_inv_def priv_send_gate priv_send_counter priv_send_config)
  with Cons show ?case by (simp add: send_all_Cons priv_send_config)
qed

lemma send_all_writer:
  "writer (send_all msgs self) =
     writer self @ map (\<lambda>msg. if dmd self then ''BM:'' @ msg else msg @ [CR]) msgs"
  by (induction msgs arbitrary: self) (simp_all add: send_all_def priv_send_writer priv_send_config)

subsection \<open>The writer task\<close>

text \<open>
  \<^item> C4: when the wait for the send-permitted gate times out for a dequeued command, the
  round of the writer task goes on to \<open>_send\<close> from a state with the warning logged, the
  in-flight counter at zero and the gate open. So, whatever the counter and the gate were,
  the command is written to the transport (framed as its branch of \<open>_send\<close> frames it), the
  warning is in the log, the counter ends as the count of this one command (1 on a
  connection that tracks, 0 otherwise), the gate ends open for every maximum that is not
  negative, and the command has left the queue.
\<close>

theorem writer_timeout_still_sends:
  "socket_writer_iteration TimedOut (self\<lparr>send_queue := msg # rest\<rparr>) =
     Some (priv_send msg
       (self\<lparr>send_queue := rest,
              log := log self @ [LogWarning (PortBlocked (port self))],
              messages_in_flight := 0, send_ready := True\<rparr>))
   \<and> (case socket_writer_iteration TimedOut (self\<lparr>send_queue := msg # rest\<rparr>) of
        None \<Rightarrow> False
      | Some (err, self') \<Rightarrow>
          writer self' = writer self @ [if dmd self then ''BM:'' @ msg else msg @ [CR]]
          \<and> LogWarning (PortBlocked (port self)) \<in> set (log self')
          \<and> messages_in_flight self' =
               (if dmd self \<or> max_messages_in_flight self = 0 then 0 else 1)
          \<and> send_ready self' = (dmd self \<or> 0 \<le> max_messages_in_flight self)
          \<and> send_queue self' = rest)"
proof -
  let ?r = "self\<lparr>send_queue := rest,
              log := log self @ [LogWarning (PortBlocked (port self))],
              messages_in_flight := 0, send_ready := True\<rparr>"
  have eq: "socket_writer_iteration TimedOut (self\<lparr>send_queue := msg # rest\<rparr>) = Some (priv_send msg ?r)"
    by (simp add: socket_writer_iteration_def)
  obtain more where lg: "log (snd (priv_send msg ?r)) = log ?r @ more"
    using priv_send_log by blast
  have "LogWarning (PortBlocked (port self)) \<in> set (log (snd (priv_send msg ?r)))"
    unfolding lg by simp
  then show ?thesis
    unfolding eq
    by (auto simp: case_prod_beta priv_send_writer priv_send_counter priv_send_gate
        priv_send_queue)
qed

text \<open>
  A stalled NET connection: the reset, the count of the one command, the frame written.
\<close>

theorem writer_timeout_still_sends_witness:
  "socket_writer_iteration TimedOut (stalled_conn\<lparr>send_queue := [''DL:07,00,00,00'']\<rparr>) =
     Some (None,
       stalled_conn\<lparr>send_queue := [],
         log := [LogWarning (PortBlocked ''com3'')],
         messages_in_flight := 1, send_ready := True,
         writer := [''DL:07,00,00,00'' @ [CR]]\<rparr>)
   \<and> messages_in_flight stalled_conn = 3 \<and> \<not> send_ready stalled_conn"
proof -
  have a: "priv_send ''DL:07,00,00,00''
             (stalled_conn\<lparr>send_queue := [],
                log := log stalled_conn @ [LogWarning (PortBlocked (port stalled_conn))],
                messages_in_flight := 0, send_ready := True\<rparr>)
           = (None,
       stalled_conn\<lparr>send_queue := [],
         log := [LogWarning (PortBlocked ''com3'')],
         messages_in_flight := 1, send_ready := True,
         writer := [''DL:07,00,00,00'' @ [CR]]\<rparr>)"
    by code_simp
  have b: "messages_in_flight stalled_conn = 3" "\<not> send_ready stalled_conn"
    by code_simp+
  from writer_timeout_still_sends [where self = stalled_conn and msg = "''DL:07,00,00,00''"
         and rest = "[]"] a b
  show ?thesis by simp
qed

subsection \<open>Flow control\<close>

text \<open>
  \<^item> C5: on a connection with a positive maximum, after each \<open>_send\<close> the gate is open only
  if the counter is at most the maximum (on a DMD connection, whose branch of \<open>_send\<close> does
  not count, provided it was so before); a \<open>_send\<close> whose increment takes the counter above
  the maximum leaves the gate closed, and still writes the command; a closed gate stays
  closed through any run of \<open>_send\<close> calls, which never bring the counter down; the
  invariant holds after every run from a state where it held, and after every non-empty
  run on a counting connection; every command of a run is written, in order.
\<close>

theorem send_gate_invariant:
  assumes "0 < max_messages_in_flight self"
  shows "(\<not> dmd self \<or> gate_inv self \<longrightarrow> gate_inv (snd (priv_send msg self)))
       \<and> (\<not> dmd self \<and> max_messages_in_flight self < messages_in_flight self + 1
            \<longrightarrow> \<not> send_ready (snd (priv_send msg self)))
       \<and> (\<not> dmd self
            \<longrightarrow> messages_in_flight (snd (priv_send msg self)) = messages_in_flight self + 1)
       \<and> writer (snd (priv_send msg self)) =
            writer self @ [if dmd self then ''BM:'' @ msg else msg @ [CR]]
       \<and> (\<not> send_ready self \<longrightarrow> \<not> send_ready (send_all msgs self))
       \<and> (gate_inv self \<or> (\<not> dmd self \<and> msgs \<noteq> []) \<longrightarrow> gate_inv (send_all msgs self))
       \<and> writer (send_all msgs self) =
            writer self @ map (\<lambda>m. if dmd self then ''BM:'' @ m else m @ [CR]) msgs"
proof -
  have one: "gate_inv (snd (priv_send m s))"
    if "0 < max_messages_in_flight s" "\<not> dmd s \<or> gate_inv s" for m s
    using that by (auto simp: gate_inv_def priv_send_gate priv_send_counter priv_send_config)
  have seq: "gate_inv (send_all msgs self)" if "gate_inv self \<or> (\<not> dmd self \<and> msgs \<noteq> [])"
  proof (cases msgs)
    case Nil
    with that show ?thesis by (simp add: send_all_def)
  next
    case (Cons m ms)
    from that Cons have "\<not> dmd self \<or> gate_inv self" by auto
    from one [OF assms this] have "gate_inv (snd (priv_send m self))" .
    then have "gate_inv (send_all ms (snd (priv_send m self)))"
      using assms by (intro send_all_inv) (simp_all add: priv_send_config)
    with Cons show ?thesis by (simp add: send_all_Cons)
  qed
  show ?thesis
    using assms one [OF assms, of msg] seq send_all_gate_closed [of self msgs]
    by (simp add: priv_send_gate priv_send_counter priv_send_writer send_all_writer)
qed

text \<open>
  The third command sent on a connection that allows two in flight closes the gate; a run
  of four leaves it closed, with the invariant, and a fifth command does not open it.
\<close>

theorem send_gate_invariant_witness:
  "0 < max_messages_in_flight sample_conn \<and> \<not> dmd sample_conn
   \<and> gate_inv (snd (priv_send ''DL:07,00,00,00'' (sample_conn\<lparr>messages_in_flight := 2\<rparr>)))
   \<and> \<not> send_ready (snd (priv_send ''DL:07,00,00,00'' (sample_conn\<lparr>messages_in_flight := 2\<rparr>)))
   \<and> writer (snd (priv_send ''DL:07,00,00,00'' (sample_conn\<lparr>messages_in_flight := 2\<rparr>)))
       = [''DL:07,00,00,00'' @ [CR]]
   \<and> send_ready (send_all [''A'', ''B''] sample_conn)
   \<and> \<not> send_ready (send_all [''A'', ''B'', ''C'', ''D''] sample_conn)
   \<and> gate_inv (send_all [''A'', ''B'', ''C'', ''D''] sample_conn)
   \<and> \<not> send_ready (send_all [''E''] (send_all [''A'', ''B'', ''C'', ''D''] sample_conn))"
proof -
  let ?s = "sample_conn\<lparr>messages_in_flight := 2\<rparr>"
  let ?t = "send_all [''A'', ''B'', ''C'', ''D''] sample_conn"
  have a: "0 < max_messages_in_flight ?s" "\<not> dmd ?s" "messages_in_flight ?s = 2"
    "max_messages_in_flight ?s = 2" "writer ?s = []"
    by (simp_all add: sample_conn_def)
  have b: "0 < max_messages_in_flight sample_conn" "\<not> dmd sample_conn"
    by (simp_all add: sample_conn_def)
  have c: "send_ready (send_all [''A'', ''B''] sample_conn)" "\<not> send_ready ?t"
    by code_simp+
  have d: "0 < max_messages_in_flight ?t" "\<not> dmd ?t"
    by (simp_all add: send_all_config sample_conn_def)
  from send_gate_invariant [OF a(1), of "''DL:07,00,00,00''" "[]"]
       send_gate_invariant [OF b(1), of "''A''" "[''A'', ''B'', ''C'', ''D'']"]
       send_gate_invariant [OF d(1), of "''E''" "[''E'']"]
       a b c d
  show ?thesis by simp
qed

subsection \<open>Helper facts about framing\<close>

lemma bytes_find_range:
  "- 1 \<le> bytes_find xs c \<and> (bytes_find xs c = - 1 \<longleftrightarrow> c \<notin> set xs)"
  by (induction xs) (auto simp: Let_def)

lemma bytes_find_absent: "bytes_find xs c = - 1 \<longleftrightarrow> c \<notin> set xs"
  using bytes_find_range by blast

lemma bytes_find_takeWhile:
  "c \<in> set xs \<Longrightarrow> bytes_find xs c = int (length (takeWhile (\<lambda>x. x \<noteq> c) xs))"
  by (induction xs) (auto simp: Let_def bytes_find_absent)

lemma split_frames_no_delimiter: "CR \<notin> set xs \<Longrightarrow> split_frames xs = ([], xs)"
  by (induction xs) auto

lemma split_frames_first:
  "CR \<notin> set xs \<Longrightarrow>
   split_frames (xs @ CR # ys) = (xs # fst (split_frames ys), snd (split_frames ys))"
  by (induction xs) (auto split: prod.splits)

lemma split_at_find:
  assumes "CR \<in> set buf"
  shows "buf = take (nat (bytes_find buf CR)) buf @ CR # drop (nat (bytes_find buf CR) + 1) buf"
    and "CR \<notin> set (take (nat (bytes_find buf CR)) buf)"
proof -
  let ?n = "length (takeWhile (\<lambda>x. x \<noteq> CR) buf)"
  have n: "nat (bytes_find buf CR) = ?n" using bytes_find_takeWhile [OF assms] by simp
  have t: "take ?n buf = takeWhile (\<lambda>x. x \<noteq> CR) buf"
    by (rule takeWhile_eq_take [symmetric])
  have d: "drop ?n buf = dropWhile (\<lambda>x. x \<noteq> CR) buf"
    by (rule dropWhile_eq_drop [symmetric])
  from assms have "dropWhile (\<lambda>x. x \<noteq> CR) buf \<noteq> []" by simp
  moreover have "hd (dropWhile (\<lambda>x. x \<noteq> CR) buf) = CR"
    using hd_dropWhile [of "\<lambda>x. x \<noteq> CR" buf] calculation by simp
  ultimately have dw: "dropWhile (\<lambda>x. x \<noteq> CR) buf = CR # tl (dropWhile (\<lambda>x. x \<noteq> CR) buf)"
    by (cases "dropWhile (\<lambda>x. x \<noteq> CR) buf") auto
  have "drop (?n + 1) buf = tl (drop ?n buf)" by (simp add: drop_Suc tl_drop)
  then have d1: "drop (?n + 1) buf = tl (dropWhile (\<lambda>x. x \<noteq> CR) buf)" using d by simp
  have "buf = takeWhile (\<lambda>x. x \<noteq> CR) buf @ dropWhile (\<lambda>x. x \<noteq> CR) buf" by simp
  then have "buf = take ?n buf @ CR # drop (?n + 1) buf" using t d1 dw by metis
  then show "buf = take (nat (bytes_find buf CR)) buf @ CR # drop (nat (bytes_find buf CR) + 1) buf"
    using n by simp
  show "CR \<notin> set (take (nat (bytes_find buf CR)) buf)"
    unfolding n t by (auto dest: set_takeWhileD)
qed

lemma forwarded_Cons:
  "forwarded proc (f # fs) =
     (if f \<noteq> [] \<and> f \<notin> set ignored_messages then [(f, proc)] else []) @ forwarded proc fs"
  by (simp add: forwarded_def)

lemma forwarded_Nil: "forwarded proc [] = []"
  by (simp add: forwarded_def)

lemma forwarded_append: "forwarded proc (fs @ gs) = forwarded proc fs @ forwarded proc gs"
  by (simp add: forwarded_def)

lemma parse_loop_split:
  "\<forall>f \<in> set (fst (split_frames buf)). utf8_valid f \<Longrightarrow>
   parse_loop proc buf out =
     (None, snd (split_frames buf), out @ forwarded proc (fst (split_frames buf)))"
proof (induction "length buf" arbitrary: buf out rule: less_induct)
  case less
  show ?case
  proof (cases "CR \<in> set buf")
    case False
    then have "bytes_find buf CR = - 1" by (simp add: bytes_find_absent)
    then have "parse_loop proc buf out = (None, buf, out)"
      by (subst parse_loop.simps) simp
    with False show ?thesis by (simp add: split_frames_no_delimiter forwarded_Nil)
  next
    case True
    define msg where "msg = take (nat (bytes_find buf CR)) buf"
    define rest where "rest = drop (nat (bytes_find buf CR) + 1) buf"
    have buf: "buf = msg @ CR # rest" and msg: "CR \<notin> set msg"
      using split_at_find [OF True] by (simp_all add: msg_def rest_def)
    have pos: "bytes_find buf CR \<noteq> - 1" using True by (simp add: bytes_find_absent)
    have sp: "split_frames buf = (msg # fst (split_frames rest), snd (split_frames rest))"
      using split_frames_first [OF msg, of rest] buf by simp
    have "length buf = length msg + Suc (length rest)" by (subst buf) simp
    then have len: "length rest < length buf" by simp
    have valid: "\<forall>f \<in> set (fst (split_frames rest)). utf8_valid f" "utf8_valid msg"
      using less.prems sp by simp_all
    have ih: "parse_loop proc rest out' =
        (None, snd (split_frames rest), out' @ forwarded proc (fst (split_frames rest)))" for out'
      using less.hyps [OF len valid(1)] .
    have step: "parse_loop proc buf out =
        (if msg = [] then parse_loop proc rest out
         else if msg \<notin> set ignored_messages
              then parse_loop proc rest (out @ [(msg, proc)])
              else parse_loop proc rest out)"
      using pos valid(2)
      by (subst parse_loop.simps) (simp add: Let_def msg_def rest_def decode_def)
    show ?thesis
      unfolding step sp by (simp add: ih forwarded_Cons)
  qed
qed

lemma split_frames_count: "length (fst (split_frames buf)) = count_list buf CR"
  by (induction buf) (auto split: prod.splits list.splits)

lemma split_frames_concat:
  "concat (map (\<lambda>f. f @ [CR]) (fst (split_frames buf))) @ snd (split_frames buf) = buf"
  by (induction buf) (auto split: prod.splits list.splits)

lemma split_frames_remainder: "CR \<notin> set (snd (split_frames buf))"
  by (induction buf) (auto split: prod.splits list.splits)

lemma split_frames_no_cr_inside: "f \<in> set (fst (split_frames buf)) \<Longrightarrow> CR \<notin> set f"
  by (induction buf arbitrary: f) (auto split: prod.splits list.splits if_splits)

lemma split_frames_bytes: "f \<in> set (fst (split_frames buf)) \<Longrightarrow> set f \<subseteq> set buf"
proof (induction buf arbitrary: f)
  case Nil
  then show ?case by simp
next
  case (Cons c cs)
  note mem = Cons.prems
  obtain fs r where sp: "split_frames cs = (fs, r)" by (cases "split_frames cs")
  have ih: "set g \<subseteq> set cs" if "g \<in> set fs" for g
    using Cons.IH [of g] that sp by simp
  show ?case
  proof (cases "c = CR")
    case True
    with mem sp have "f = [] \<or> f \<in> set fs" by simp
    with ih show ?thesis by auto
  next
    case False
    show ?thesis
    proof (cases fs)
      case Nil
      with mem sp False show ?thesis by simp
    next
      case fs: (Cons g gs)
      have g: "set g \<subseteq> set cs" using ih [of g] fs by simp
      have gs: "set h \<subseteq> set cs" if "h \<in> set gs" for h using ih [of h] fs that by simp
      from mem sp False fs have "f = c # g \<or> f \<in> set gs" by simp
      then show ?thesis using g gs by auto
    qed
  qed
qed

lemma split_frames_append:
  "split_frames (buf @ chunk) =
     (fst (split_frames buf) @ fst (split_frames (snd (split_frames buf) @ chunk)),
      snd (split_frames (snd (split_frames buf) @ chunk)))"
  by (induction buf) (auto split: prod.splits list.splits)

lemma ascii_utf8_valid: "\<forall>c \<in> set bs. (of_char c :: nat) < 128 \<Longrightarrow> utf8_valid bs"
  by (induction bs) (auto simp: Let_def)


lemma parse_msg_valid:
  assumes "\<forall>f \<in> set (fst (split_frames (received_msg self @ chunk))). utf8_valid f"
  shows "priv_parse_msg chunk self =
       (None,
        self\<lparr>received_msg := snd (split_frames (received_msg self @ chunk)),
             routed := routed self @
               forwarded (remote_processor self)
                 (fst (split_frames (received_msg self @ chunk)))\<rparr>)"
  using parse_loop_split [OF assms] by (simp add: priv_parse_msg_def)

lemma parse_msg_chunks:
  assumes v: "\<forall>f \<in> set (fst (split_frames (received_msg self @ chunk @ chunk'))). utf8_valid f"
  shows "priv_parse_msg chunk' (snd (priv_parse_msg chunk self)) =
           priv_parse_msg (chunk @ chunk') self"
proof -
  let ?B = "received_msg self @ chunk"
  have sp: "split_frames (?B @ chunk') =
     (fst (split_frames ?B) @ fst (split_frames (snd (split_frames ?B) @ chunk')),
      snd (split_frames (snd (split_frames ?B) @ chunk')))"
    by (rule split_frames_append)
  from v sp have v1: "\<forall>f \<in> set (fst (split_frames ?B)). utf8_valid f"
    and v2: "\<forall>f \<in> set (fst (split_frames (snd (split_frames ?B) @ chunk'))). utf8_valid f"
    by simp_all
  let ?s1 = "self\<lparr>received_msg := snd (split_frames ?B),
           routed := routed self @ forwarded (remote_processor self) (fst (split_frames ?B))\<rparr>"
  have first: "snd (priv_parse_msg chunk self) = ?s1" using parse_msg_valid [OF v1] by simp
  have v2': "\<forall>f \<in> set (fst (split_frames (received_msg ?s1 @ chunk'))). utf8_valid f"
    using v2 by simp
  have whole: "\<forall>f \<in> set (fst (split_frames (received_msg self @ (chunk @ chunk')))). utf8_valid f"
    using v by simp
  show ?thesis
    unfolding first parse_msg_valid [OF v2'] parse_msg_valid [OF whole]
    using sp by (simp add: forwarded_append)
qed

lemma ascii_frames_valid:
  assumes "\<forall>c \<in> set buf. (of_char c :: nat) < 128"
  shows "\<forall>f \<in> set (fst (split_frames buf)). utf8_valid f"
proof
  fix f
  assume "f \<in> set (fst (split_frames buf))"
  then have "set f \<subseteq> set buf" by (rule split_frames_bytes)
  with assms show "utf8_valid f" by (intro ascii_utf8_valid) auto
qed

subsection \<open>The inbound dispatcher\<close>

text \<open>
  \<^item> C6, as amended. For every inbound byte sequence whose complete frames are well-formed
  UTF-8 (every ASCII sequence is), fed to the dispatcher in one chunk or across several:
  there is exactly one frame per carriage-return delimiter; the bytes after the last
  delimiter are retained and prefixed to the next chunk, so that parsing two chunks in
  turn is parsing their concatenation; empty frames are dropped; every other frame is
  dropped exactly when its full text is in the ignored-acknowledgement list and otherwise
  forwarded, in arrival order, with the processor identity. The frames and the remainder
  are those of the framer: joined with their delimiters they give back the buffer, and no
  frame and no remainder holds a delimiter.
\<close>

theorem parse_msg_frames:
  "((\<forall>f \<in> set (fst (split_frames (received_msg self @ chunk))). utf8_valid f) \<longrightarrow>
     priv_parse_msg chunk self =
       (None,
        self\<lparr>received_msg := snd (split_frames (received_msg self @ chunk)),
             routed := routed self @
               forwarded (remote_processor self)
                 (fst (split_frames (received_msg self @ chunk)))\<rparr>))
   \<and> ((\<forall>f \<in> set (fst (split_frames (received_msg self @ chunk @ chunk'))). utf8_valid f) \<longrightarrow>
     priv_parse_msg chunk' (snd (priv_parse_msg chunk self)) =
       priv_parse_msg (chunk @ chunk') self)
   \<and> ((\<forall>c \<in> set buf. (of_char c :: nat) < 128) \<longrightarrow>
     (\<forall>f \<in> set (fst (split_frames buf)). utf8_valid f))
   \<and> length (fst (split_frames buf)) = count_list buf CR
   \<and> concat (map (\<lambda>f. f @ [CR]) (fst (split_frames buf))) @ snd (split_frames buf) = buf
   \<and> CR \<notin> set (snd (split_frames buf))
   \<and> (\<forall>f \<in> set (fst (split_frames buf)). CR \<notin> set f)"
  using parse_msg_valid [of self chunk] parse_msg_chunks [of self chunk chunk']
    ascii_frames_valid [of buf] split_frames_count [of buf] split_frames_concat [of buf]
    split_frames_remainder [of buf] split_frames_no_cr_inside [of _ buf]
  by blast

theorem parse_msg_frames_witness:
  "split_frames sample_chunk = ([''SN:P'', [], ''-N:1A''], ''WD:'')
   \<and> utf8_valid ''SN:P'' \<and> utf8_valid [] \<and> utf8_valid ''-N:1A''
   \<and> count_list sample_chunk CR = 3
   \<and> priv_parse_msg sample_chunk sample_conn =
       (None, sample_conn\<lparr>received_msg := ''WD:'', routed := [(''-N:1A'', ''NET'')]\<rparr>)
   \<and> priv_parse_msg sample_chunk' (snd (priv_parse_msg sample_chunk sample_conn))
      = priv_parse_msg (sample_chunk @ sample_chunk') sample_conn
   \<and> priv_parse_msg (sample_chunk @ sample_chunk') sample_conn =
       (None, sample_conn\<lparr>received_msg := ''ID:'',
                routed := [(''-N:1A'', ''NET''), (''WD:P'', ''NET'')]\<rparr>)"
proof -
  have r: "received_msg sample_conn = []" "routed sample_conn = []"
    "remote_processor sample_conn = ''NET''"
    by (simp_all add: sample_conn_def)
  have s1: "split_frames sample_chunk = ([''SN:P'', [], ''-N:1A''], ''WD:'')"
    by code_simp
  have s2: "split_frames (sample_chunk @ sample_chunk')
              = ([''SN:P'', [], ''-N:1A'', ''WD:P''], ''ID:'')"
    by code_simp
  have u: "utf8_valid ''SN:P''" "utf8_valid []" "utf8_valid ''-N:1A''" "utf8_valid ''WD:P''"
    by code_simp+
  have f1: "forwarded ''NET'' [''SN:P'', [], ''-N:1A''] = [(''-N:1A'', ''NET'')]"
    by code_simp
  have f2: "forwarded ''NET'' [''SN:P'', [], ''-N:1A'', ''WD:P'']
              = [(''-N:1A'', ''NET''), (''WD:P'', ''NET'')]"
    by code_simp
  have v1: "\<forall>f \<in> set (fst (split_frames (received_msg sample_conn @ sample_chunk))). utf8_valid f"
    using u by (simp add: r s1)
  have v2: "\<forall>f \<in> set (fst (split_frames
              (received_msg sample_conn @ sample_chunk @ sample_chunk'))). utf8_valid f"
    using u by (simp add: r s2)
  have v3: "\<forall>f \<in> set (fst (split_frames
              (received_msg sample_conn @ (sample_chunk @ sample_chunk') @ []))). utf8_valid f"
    using u by (simp add: r s2)
  note t1 = parse_msg_frames [of sample_conn sample_chunk sample_chunk' sample_chunk]
  note t2 = parse_msg_frames [of sample_conn "sample_chunk @ sample_chunk'" "[]" sample_chunk]
  have p1: "priv_parse_msg sample_chunk sample_conn =
       (None, sample_conn\<lparr>received_msg := ''WD:'', routed := [(''-N:1A'', ''NET'')]\<rparr>)"
    using t1 v1 by (simp add: r s1 f1)
  have p2: "priv_parse_msg sample_chunk' (snd (priv_parse_msg sample_chunk sample_conn)) =
              priv_parse_msg (sample_chunk @ sample_chunk') sample_conn"
    using t1 v2 by blast
  have p3: "priv_parse_msg (sample_chunk @ sample_chunk') sample_conn =
       (None, sample_conn\<lparr>received_msg := ''ID:'',
                routed := [(''-N:1A'', ''NET''), (''WD:P'', ''NET'')]\<rparr>)"
    using t2 v3 by (simp add: r s2 f2)
  have cnt: "count_list sample_chunk CR = 3" using t1 s1 by simp
  from s1 u cnt p1 p2 p3 show ?thesis by blast
qed

text \<open>
  C6 as stated fails on bytes that are not UTF-8: the chunk holds two complete frames,
  neither empty nor ignored, and none is forwarded. Decoding the first raises, after it
  was cut from the buffer; the second stays in the buffer.
\<close>

theorem parse_msg_frames_counterexample:
  "split_frames undecodable_chunk = ([[CHR 0xFF], ''AB''], [])
   \<and> [CHR 0xFF] \<notin> set ignored_messages \<and> ''AB'' \<notin> set ignored_messages
   \<and> fst (priv_parse_msg undecodable_chunk sample_conn) = Some UnicodeDecodeError
   \<and> routed (snd (priv_parse_msg undecodable_chunk sample_conn)) = []
   \<and> received_msg (snd (priv_parse_msg undecodable_chunk sample_conn)) = ''AB'' @ [CR]"
  by code_simp

end
